theory Spec2Isabelle
  imports Complex_Main
begin

section \<open>Diagnosis events and staleness\<close>

text \<open>
  A diagnosis event as the data manager uses it: \<^verbatim>\<open>store_data\<close> reads \<^verbatim>\<open>data.data_type\<close>
  and the eviction scan reads \<^verbatim>\<open>d.timestamp\<close>, a float of POSIX seconds, here a real
  number. The class \<^verbatim>\<open>DiagnosisData\<close> itself is declared outside these sources; the
  remaining content of an event is carried as an opaque payload.
\<close>

record diagnosis_data =
  data_type :: string
  timestamp :: real
  payload :: string

text \<open>
  The exceptions of the code paths below. \<open>RangeError\<close> stands for what \<^verbatim>\<open>datetime\<close>
  raises for a time it or the platform cannot represent (\<^verbatim>\<open>ValueError\<close>,
  \<^verbatim>\<open>OverflowError\<close> or \<^verbatim>\<open>OSError\<close>, by the magnitude and the platform).
\<close>

datatype py_exception = TypeError | RangeError | OtherException string

text \<open>
  What \<^verbatim>\<open>datetime\<close> reads from the platform: the local time zone, as the UTC offset in
  seconds that the conversion to local time finds for a POSIX second (\<open>None\<close> where the
  conversion of that second fails), and the system clock, in microseconds since the
  epoch.
\<close>

record platform_clock =
  localtime :: "int \<Rightarrow> int option"
  now_us :: int

text \<open>
  A naive \<^verbatim>\<open>datetime\<close> is a count of microseconds on the local wall clock, here counted
  from 1970-01-01 00:00:00 of that clock; \<^verbatim>\<open>datetime.min\<close> is year 1 and
  \<^verbatim>\<open>datetime.max\<close> the last microsecond of year 9999.
\<close>

definition datetime_min :: int where
  "datetime_min = - 62135596800000000"

definition datetime_max :: int where
  "datetime_max = 253402300799999999"

text \<open>Rounding to the nearest integer, a tie to the even one.\<close>

definition round_half_even :: "real \<Rightarrow> int" where
  "round_half_even x =
     (let f = \<lfloor>x\<rfloor>; r = x - of_int f
      in if r < 1 / 2 then f else if 1 / 2 < r then f + 1 else if even f then f else f + 1)"

text \<open>
  The naive local \<^verbatim>\<open>datetime\<close> of a POSIX time given in microseconds: the offset of its
  second is added; a result outside years 1 to 9999 is refused.
\<close>

definition local_datetime :: "platform_clock \<Rightarrow> int \<Rightarrow> py_exception + int" where
  "local_datetime clk us =
     (case localtime clk (us div 1000000) of
        None \<Rightarrow> Inl RangeError
      | Some off \<Rightarrow>
          (let v = us + off * 1000000
           in if datetime_min \<le> v \<and> v \<le> datetime_max then Inr v else Inl RangeError))"

text \<open>
  \<^verbatim>\<open>datetime.fromtimestamp(timestamp)\<close> rounds the float to microseconds, half to even;
  \<^verbatim>\<open>datetime.now()\<close> converts the reading of the system clock.
\<close>

definition fromtimestamp :: "platform_clock \<Rightarrow> real \<Rightarrow> py_exception + int" where
  "fromtimestamp clk ts = local_datetime clk (round_half_even (ts * 1000000))"

definition datetime_now :: "platform_clock \<Rightarrow> py_exception + int" where
  "datetime_now clk = local_datetime clk (now_us clk)"

text \<open>
  \<^verbatim>\<open>has_expired(timestamp, time_period)\<close>: the naive local datetime of the timestamp, plus
  \<^verbatim>\<open>timedelta(seconds=time_period)\<close> (an \<^verbatim>\<open>OverflowError\<close> when the sum leaves the range of
  \<^verbatim>\<open>datetime\<close>), compared with \<^verbatim>\<open>datetime.now()\<close>. What the platform says is the third
  argument.
\<close>

definition has_expired :: "real \<Rightarrow> int \<Rightarrow> platform_clock \<Rightarrow> py_exception + bool" where
  "has_expired ts time_period clk =
     (case fromtimestamp clk ts of
        Inl e \<Rightarrow> Inl e
      | Inr dt \<Rightarrow>
          (let expired_dt = dt + time_period * 1000000
           in if expired_dt < datetime_min \<or> datetime_max < expired_dt then Inl RangeError
              else (case datetime_now clk of
                      Inl e \<Rightarrow> Inl e
                    | Inr n \<Rightarrow> Inr (expired_dt < n))))"

text \<open>
  A platform on UTC whose clock reads the given microsecond; it converts the seconds
  from 0001-01-02 to the end of year 9999.
\<close>

definition utc_clock :: "int \<Rightarrow> platform_clock" where
  "utc_clock us =
     \<lparr>localtime = (\<lambda>t. if - 62135510400 \<le> t \<and> t \<le> 253402300799 then Some 0 else None),
      now_us = us\<rparr>"

section \<open>Python objects: deques, lists and the object store\<close>

text \<open>
  The manager's dictionary holds references to \<^verbatim>\<open>collections.deque\<close> objects, and
  \<^verbatim>\<open>get_data\<close> hands a \<^verbatim>\<open>list\<close> object to its caller. Both are mutable, so objects live
  in a store indexed by addresses. A deque carries its \<^verbatim>\<open>maxlen\<close> (\<open>None\<close> when
  unbounded).
\<close>

type_synonym addr = nat

datatype pyobj =
  Deque "diagnosis_data list" "nat option"
| PyList "diagnosis_data list"

text \<open>Iterating an object (\<^verbatim>\<open>for d in x\<close>, \<^verbatim>\<open>list(x)\<close>, \<^verbatim>\<open>islice(x, ...)\<close>) visits its items.\<close>

fun items :: "pyobj \<Rightarrow> diagnosis_data list" where
  "items (Deque xs m) = xs"
| "items (PyList xs) = xs"


text \<open>
  \<^verbatim>\<open>x.append(d)\<close>: the item goes to the right end; a bounded deque that now holds more
  than \<^verbatim>\<open>maxlen\<close> items discards one from the left end.
\<close>

fun obj_append :: "pyobj \<Rightarrow> diagnosis_data \<Rightarrow> pyobj" where
  "obj_append (Deque xs None) d = Deque (xs @ [d]) None"
| "obj_append (Deque xs (Some m)) d =
     (if m < length (xs @ [d]) then Deque (tl (xs @ [d])) (Some m)
      else Deque (xs @ [d]) (Some m))"
| "obj_append (PyList xs) d = PyList (xs @ [d])"

text \<open>
  The state of a \<^verbatim>\<open>DiagnosisDataManager\<close>: the dictionary \<^verbatim>\<open>_diagnosis_data\<close> from type
  names to references, \<^verbatim>\<open>expire_time_period\<close>, and the object store the references
  point into, with its next unused address. The lock makes each method body one
  atomic step; every function below is such a step.
\<close>

record diagnosis_data_manager =
  data :: "string \<rightharpoonup> addr"
  expire_time_period :: int
  heap :: "addr \<Rightarrow> pyobj"
  next_addr :: addr

definition DiagnosisDataManager_init :: "int \<Rightarrow> diagnosis_data_manager" where
  "DiagnosisDataManager_init p =
     \<lparr>data = Map.empty, expire_time_period = p, heap = (\<lambda>a. PyList []), next_addr = 0\<rparr>"

text \<open>Creating an object puts it at the next unused address.\<close>

definition alloc :: "pyobj \<Rightarrow> diagnosis_data_manager \<Rightarrow> addr \<times> diagnosis_data_manager" where
  "alloc obj s =
     (next_addr s, s\<lparr>heap := (heap s)(next_addr s := obj), next_addr := Suc (next_addr s)\<rparr>)"

section \<open>The data manager's operations\<close>

text \<open>
  The scan of \<^verbatim>\<open>_clean_diagnosis_data\<close>: \<^verbatim>\<open>n\<close> counts expired items from the front and
  the loop breaks at the first item that has not expired; an exception of
  \<^verbatim>\<open>has_expired\<close> ends the scan. Each \<^verbatim>\<open>has_expired\<close> call of one scan reads the clock
  anew; the readings of one scan are taken as one.
\<close>

fun count_expired ::
  "nat \<Rightarrow> diagnosis_data list \<Rightarrow> int \<Rightarrow> platform_clock \<Rightarrow> py_exception + nat" where
  "count_expired n [] p clk = Inr n"
| "count_expired n (d # ds) p clk =
     (case has_expired (timestamp d) p clk of
        Inl e \<Rightarrow> Inl e
      | Inr expired \<Rightarrow> if expired then count_expired (n + 1) ds p clk else Inr n)"

text \<open>
  \<^verbatim>\<open>_clean_diagnosis_data(data_type)\<close>: when the scan counted \<^verbatim>\<open>n > 0\<close> items, the
  dictionary entry is rebound to a new deque built from \<^verbatim>\<open>islice(each_data, n, len(each_data))\<close>;
  that constructor call passes no \<^verbatim>\<open>maxlen\<close>. Nothing handles an exception of the scan:
  it leaves the method with the state as it is. The result is the exception raised, if
  any, and the state left.
\<close>

definition clean_diagnosis_data ::
  "diagnosis_data_manager \<Rightarrow> string \<Rightarrow> platform_clock \<Rightarrow>
     py_exception option \<times> diagnosis_data_manager" where
  "clean_diagnosis_data s ty clk =
     (case data s ty of
        None \<Rightarrow> (None, s)
      | Some a \<Rightarrow>
          (let each_data = items (heap s a)
           in case count_expired 0 each_data (expire_time_period s) clk of
                Inl e \<Rightarrow> (Some e, s)
              | Inr n \<Rightarrow>
                  if 0 < n
                  then (case alloc (Deque (drop n (take (length each_data) each_data)) None) s of
                          (b, s') \<Rightarrow> (None, s'\<lparr>data := (data s')(ty \<mapsto> b)\<rparr>))
                  else (None, s)))"

text \<open>
  \<^verbatim>\<open>store_data(data)\<close>: a missing entry is created as \<^verbatim>\<open>deque(maxlen=100000)\<close>, the event
  is appended to the entry's deque, then the entry is cleaned; an exception of the
  cleaning leaves \<^verbatim>\<open>store_data\<close> after the append.
\<close>

definition store_data ::
  "diagnosis_data_manager \<Rightarrow> diagnosis_data \<Rightarrow> platform_clock \<Rightarrow>
     py_exception option \<times> diagnosis_data_manager" where
  "store_data s d clk =
     (let ty = data_type d;
          (a, s1) = (case data s ty of
                       None \<Rightarrow> (case alloc (Deque [] (Some 100000)) s of
                                  (a, s') \<Rightarrow> (a, s'\<lparr>data := (data s')(ty \<mapsto> a)\<rparr>))
                     | Some a \<Rightarrow> (a, s));
          s2 = s1\<lparr>heap := (heap s1)(a := obj_append (heap s1 a) d)\<rparr>
      in clean_diagnosis_data s2 ty clk)"

text \<open>
  \<^verbatim>\<open>get_data(data_type)\<close> returns a reference to a new list: \<^verbatim>\<open>[]\<close> for a missing entry,
  \<^verbatim>\<open>list(self.data[data_type])\<close> otherwise. It reads no clock.
\<close>

definition get_data :: "diagnosis_data_manager \<Rightarrow> string \<Rightarrow> addr \<times> diagnosis_data_manager" where
  "get_data s ty =
     (case data s ty of
        None \<Rightarrow> alloc (PyList []) s
      | Some a \<Rightarrow> alloc (PyList (items (heap s a))) s)"

text \<open>The items of the list a \<^verbatim>\<open>get_data\<close> call returns.\<close>

definition get_data_items :: "diagnosis_data_manager \<Rightarrow> string \<Rightarrow> diagnosis_data list" where
  "get_data_items s ty = (case get_data s ty of (r, s') \<Rightarrow> items (heap s' r))"

text \<open>The object the dictionary holds for a type, if any.\<close>

definition stored :: "diagnosis_data_manager \<Rightarrow> string \<Rightarrow> pyobj option" where
  "stored s ty = map_option (heap s) (data s ty)"

text \<open>A caller's mutation of a list it holds a reference to: the object changes in place.\<close>

definition caller_mutates ::
  "addr \<Rightarrow> diagnosis_data list \<Rightarrow> diagnosis_data_manager \<Rightarrow> diagnosis_data_manager" where
  "caller_mutates r ys s = s\<lparr>heap := (heap s)(r := PyList ys)\<rparr>"

text \<open>
  A run of \<^verbatim>\<open>store_data\<close> calls, each with what the platform says during it; a call that
  raises leaves its state to the next call.
\<close>

fun store_all ::
  "diagnosis_data_manager \<Rightarrow> (diagnosis_data \<times> platform_clock) list \<Rightarrow> diagnosis_data_manager" where
  "store_all s [] = s"
| "store_all s ((d, clk) # rest) = store_all (snd (store_data s d clk)) rest"

text \<open>
  The deque \<^verbatim>\<open>store_data\<close> appends to: the entry's deque, or the new
  \<^verbatim>\<open>deque(maxlen=100000)\<close> when the type has no entry yet.
\<close>

definition prior :: "diagnosis_data_manager \<Rightarrow> string \<Rightarrow> pyobj" where
  "prior s ty = (case stored s ty of None \<Rightarrow> Deque [] (Some 100000) | Some q \<Rightarrow> q)"

text \<open>An event is stale at a scan when \<^verbatim>\<open>has_expired\<close> returns \<^verbatim>\<open>True\<close> for it.\<close>

definition stale :: "int \<Rightarrow> platform_clock \<Rightarrow> diagnosis_data \<Rightarrow> bool" where
  "stale p clk e \<longleftrightarrow> has_expired (timestamp e) p clk = Inr True"

text \<open>An event of type \<^verbatim>\<open>hang_signal\<close> with the given timestamp, for concrete runs.\<close>

definition hang_signal :: "real \<Rightarrow> diagnosis_data" where
  "hang_signal t = \<lparr>data_type = ''hang_signal'', timestamp = t, payload = []\<rparr>"

text \<open>
  A run under the default window of 600 seconds, on UTC: an event at time 0, an event at
  time 601 (whose store evicts the first), then 100000 events one millisecond apart,
  each stored at its own timestamp. Timestamps increase strictly and no event of the
  last 100001 is stale at any store of the run.
\<close>

definition overflow_run :: "(diagnosis_data \<times> platform_clock) list" where
  "overflow_run =
     (hang_signal 0, utc_clock 0) # (hang_signal 601, utc_clock 601000000) #
     map (\<lambda>i. (hang_signal (601 + real i / 1000), utc_clock (601000000 + 1000 * int i)))
       [1..<100001]"

text \<open>
  The states a data manager reaches: it is constructed, events are stored, lists are
  fetched, and a caller changes a list it holds. The dictionary's deques are referenced
  by the dictionary only.
\<close>

inductive reachable :: "diagnosis_data_manager \<Rightarrow> bool" where
  reach_init: "reachable (DiagnosisDataManager_init p)"
| reach_store: "reachable s \<Longrightarrow> reachable (snd (store_data s d clk))"
| reach_get: "reachable s \<Longrightarrow> reachable (snd (get_data s ty))"
| reach_mutate: "reachable s \<Longrightarrow> r \<notin> ran (data s) \<Longrightarrow> reachable (caller_mutates r ys s)"

text \<open>
  The states reached without ever storing an event of type \<open>ty\<close>.
\<close>

inductive never_stored :: "string \<Rightarrow> diagnosis_data_manager \<Rightarrow> bool" where
  ns_init: "never_stored ty (DiagnosisDataManager_init p)"
| ns_store: "never_stored ty s \<Longrightarrow> data_type d \<noteq> ty \<Longrightarrow> never_stored ty (snd (store_data s d clk))"
| ns_get: "never_stored ty s \<Longrightarrow> never_stored ty (snd (get_data s ty'))"
| ns_mutate: "never_stored ty s \<Longrightarrow> r \<notin> ran (data s) \<Longrightarrow> never_stored ty (caller_mutates r ys s)"

definition refs_allocated :: "diagnosis_data_manager \<Rightarrow> bool" where
  "refs_allocated s \<longleftrightarrow> (\<forall>ty a. data s ty = Some a \<longrightarrow> a < next_addr s)"



section \<open>Inferences and the diagnostician\<close>

text \<open>
  An inference is built from three enumeration members (\<^verbatim>\<open>InferenceName\<close>,
  \<^verbatim>\<open>InferenceAttribute\<close>, \<^verbatim>\<open>InferenceDescription\<close>); the enumerations are declared
  outside these sources and a member is written by its name.
\<close>

datatype inference = Inference string string string

definition training_hang :: inference where
  "training_hang = Inference ''TRAINING'' ''ISORNOT'' ''HANG''"

datatype inference_operator = CheckTrainingHangOperator

text \<open>
  What the code does besides changing its state, in order: log lines (the formatted
  ones by their argument), evaluations of an inference chain (by the seeds and the
  operators the chain is built from), thread starts and sleeps.
\<close>

datatype effect =
  Log_info string
| Log_error string
| Log_data_size nat
| Log_problem inference
| Log_root_cause inference
| Chain_infer "inference list" "inference_operator list"
| Thread_start
| Sleep

record diagnostician =
  pre_checks :: "inference list"
  training_problems :: "inference list"

definition Diagnostician_init :: diagnostician where
  "Diagnostician_init = \<lparr>pre_checks = [], training_problems = []\<rparr>"

definition get_pre_check_operators :: "diagnostician \<Rightarrow> inference_operator list" where
  "get_pre_check_operators d = []"

definition get_observing_operators :: "diagnostician \<Rightarrow> inference_operator list" where
  "get_observing_operators d = [CheckTrainingHangOperator]"

definition register_pre_check :: "diagnostician \<Rightarrow> inference list \<Rightarrow> diagnostician" where
  "register_pre_check d xs = d\<lparr>pre_checks := xs\<rparr>"

definition register_problems :: "diagnostician \<Rightarrow> inference list \<Rightarrow> diagnostician" where
  "register_problems d xs = d\<lparr>training_problems := xs\<rparr>"

text \<open>
  \<^verbatim>\<open>check_training\<close> and \<^verbatim>\<open>observe_training\<close> build an \<^verbatim>\<open>InferenceChain\<close> and return what
  its \<^verbatim>\<open>infer()\<close> gives. The chain is implemented outside these sources: what \<^verbatim>\<open>infer()\<close>
  does (a list of inferences, or an exception) is an argument, and the call is an
  effect.
\<close>

definition check_training ::
  "diagnostician \<Rightarrow> (py_exception + inference list) \<Rightarrow>
     (py_exception + inference list) \<times> effect list" where
  "check_training d outcome =
     (outcome, [Chain_infer (pre_checks d) (get_pre_check_operators d)])"

definition observe_training ::
  "diagnostician \<Rightarrow> (py_exception + inference list) \<Rightarrow>
     (py_exception + inference list) \<times> effect list" where
  "observe_training d outcome =
     (outcome, [Chain_infer (training_problems d) (get_observing_operators d)])"

text \<open>
  The body of \<^verbatim>\<open>diagnose_failure\<close> is \<^verbatim>\<open>pass\<close>: the call returns Python's \<^verbatim>\<open>None\<close>,
  here \<open>None\<close>; a returned list would be \<open>Some\<close> of it.
\<close>

definition diagnose_failure :: "diagnostician \<Rightarrow> inference \<Rightarrow> inference list option" where
  "diagnose_failure d i = None"

section \<open>The observation loop\<close>

text \<open>
  The inner loop of \<^verbatim>\<open>_diagnose_failures\<close> over the observed problems. Iterating
  \<^verbatim>\<open>root_causes\<close> raises \<^verbatim>\<open>TypeError\<close> when it is \<^verbatim>\<open>None\<close>. The result is the effects
  so far and the exception raised, if any.
\<close>

fun diagnose_problems ::
  "diagnostician \<Rightarrow> inference list \<Rightarrow> effect list \<times> py_exception option" where
  "diagnose_problems d [] = ([], None)"
| "diagnose_problems d (problem # rest) =
     (case diagnose_failure d problem of
        None \<Rightarrow> ([Log_problem problem], Some TypeError)
      | Some root_causes \<Rightarrow>
          (case diagnose_problems d rest of
             (es, r) \<Rightarrow> (Log_problem problem # map Log_root_cause root_causes @ es, r)))"

datatype iteration_result = Break | Next | Raise py_exception

text \<open>
  One pass through the body of \<^verbatim>\<open>while True\<close>. Its readings of the world are arguments:
  the flag \<^verbatim>\<open>_is_observing_started\<close> (another thread sets it), the number
  \<^verbatim>\<open>get_data_size()\<close> gives, and the outcome of the chain \<^verbatim>\<open>observe_training\<close> runs.
  Nothing in the body handles an exception.
\<close>

definition loop_iteration ::
  "diagnostician \<Rightarrow> bool \<Rightarrow> nat \<Rightarrow> (py_exception + inference list) \<Rightarrow>
     effect list \<times> iteration_result" where
  "loop_iteration d started sz outcome =
     (if \<not> started then ([Log_info ''Stop to diagnose failures for observing.''], Break)
      else
        (case observe_training d outcome of
           (Inl e, es) \<Rightarrow> (Log_data_size sz # es, Raise e)
         | (Inr observed_problems, es) \<Rightarrow>
             (case diagnose_problems d observed_problems of
                (es', Some e) \<Rightarrow> (Log_data_size sz # es @ es', Raise e)
              | (es', None) \<Rightarrow> (Log_data_size sz # es @ es' @ [Sleep], Next))))"

datatype loop_end = Stopped | Died py_exception | Still_looping

text \<open>
  \<^verbatim>\<open>_diagnose_failures\<close> run against the list of readings of its successive iterations.
  The loop has no bound of its own: when the readings run out it is still looping.
\<close>

fun diagnose_failures_loop ::
  "diagnostician \<Rightarrow> (bool \<times> nat \<times> (py_exception + inference list)) list \<Rightarrow>
     effect list \<times> loop_end" where
  "diagnose_failures_loop d [] = ([], Still_looping)"
| "diagnose_failures_loop d ((started, sz, outcome) # rest) =
     (case loop_iteration d started sz outcome of
        (es, Break) \<Rightarrow> (es, Stopped)
      | (es, Raise e) \<Rightarrow> (es, Died e)
      | (es, Next) \<Rightarrow>
          (case diagnose_failures_loop d rest of (es', r) \<Rightarrow> (es @ es', r)))"

definition diagnose_failures ::
  "diagnostician \<Rightarrow> (bool \<times> nat \<times> (py_exception + inference list)) list \<Rightarrow>
     effect list \<times> loop_end" where
  "diagnose_failures d readings =
     (case diagnose_failures_loop d readings of
        (es, r) \<Rightarrow> (Log_info ''Start to diagnose failures for observing.'' # es, r))"

text \<open>An iteration that neither breaks nor raises, the flag read as set.\<close>

definition passes :: "diagnostician \<Rightarrow> bool \<times> nat \<times> (py_exception + inference list) \<Rightarrow> bool" where
  "passes d rd = (case rd of (started, sz, outcome) \<Rightarrow>
     started \<and> snd (loop_iteration d started sz outcome) = Next)"

section \<open>The diagnosis manager\<close>

text \<open>
  A thread started by \<^verbatim>\<open>start_observing\<close> runs \<^verbatim>\<open>_diagnose_failures\<close>: it is \<open>Fresh\<close> until
  it enters the loop, \<open>Looping\<close> between iterations, and ends by the \<^verbatim>\<open>break\<close> or by an
  exception.
\<close>

datatype thread_state = Fresh | Looping | Exited | Crashed py_exception

record diagnosis_manager =
  is_observing_started :: bool
  data_manager :: diagnosis_data_manager
  diagnostician :: diagnostician
  threads :: "thread_state list"
  effects :: "effect list"

definition DiagnosisManager_init :: diagnosis_manager where
  "DiagnosisManager_init =
     \<lparr>is_observing_started = False, data_manager = DiagnosisDataManager_init 600,
      diagnostician = Diagnostician_init, threads = [], effects = []\<rparr>"

text \<open>
  \<^verbatim>\<open>collect_diagnosis_data\<close> forwards to \<^verbatim>\<open>store_data\<close>; an exception of that call is its
  own.
\<close>

definition collect_diagnosis_data ::
  "diagnosis_manager \<Rightarrow> diagnosis_data \<Rightarrow> platform_clock \<Rightarrow>
     py_exception option \<times> diagnosis_manager" where
  "collect_diagnosis_data m d clk =
     (case store_data (data_manager m) d clk of
        (e, dm) \<Rightarrow> (e, m\<lparr>data_manager := dm\<rparr>))"

definition pre_check :: "diagnosis_manager \<Rightarrow> diagnosis_manager" where
  "pre_check m =
     (let m1 = m\<lparr>effects := effects m @ [Log_info ''Start Diagnosis Manager to pre-check training...'']\<rparr>;
          pre_checks = []
      in m1\<lparr>diagnostician := register_pre_check (diagnostician m1) pre_checks\<rparr>)"

text \<open>
  What creating and starting the thread does: it starts, and \<^verbatim>\<open>is_alive()\<close> then reads
  as given, or an \<^verbatim>\<open>Exception\<close> with the given text is raised.
\<close>

datatype spawn = Spawned bool | Spawn_failed string

definition start_observing :: "diagnosis_manager \<Rightarrow> spawn \<Rightarrow> diagnosis_manager" where
  "start_observing m sp =
     (let m1 = m\<lparr>effects := effects m @ [Log_info ''Start Diagnosis Manager to observing training...''],
                 is_observing_started := True\<rparr>;
          problems = [training_hang];
          m2 = m1\<lparr>diagnostician := register_problems (diagnostician m1) problems\<rparr>
      in (case sp of
            Spawned alive \<Rightarrow>
              m2\<lparr>threads := threads m2 @ [Fresh],
                 effects := effects m2 @ Thread_start #
                   (if alive then [Log_info ''Diagnosis Manager is started''] else [])\<rparr>
          | Spawn_failed e \<Rightarrow>
              m2\<lparr>effects := effects m2 @
                   [Log_error (''Failed to start the diagnosis manager thread. Error: '' @ e)]\<rparr>))"





section \<open>Properties of the data manager\<close>

lemma round_half_even_of_int [simp]: "round_half_even (of_int k) = k"
  by (simp add: round_half_even_def)

lemma utc_local_datetime:
  "- 62135510400000000 \<le> us \<Longrightarrow> us \<le> 253402300799999999 \<Longrightarrow>
   local_datetime (utc_clock n) us = Inr us"
proof -
  assume a: "- 62135510400000000 \<le> us" and b: "us \<le> 253402300799999999"
  have "- 62135510400 \<le> us div 1000000" using a by linarith
  moreover have "us div 1000000 \<le> 253402300799" using b by linarith
  ultimately show ?thesis
    using a b by (simp add: local_datetime_def utc_clock_def datetime_min_def datetime_max_def)
qed

lemma now_us_utc_clock [simp]: "now_us (utc_clock n) = n"
  by (simp add: utc_clock_def)

lemma has_expired_utc:
  assumes "round_half_even (ts * 1000000) = us"
    and "- 62135510400000000 \<le> us" and "us \<le> 253402300799999999"
    and "- 62135510400000000 \<le> us + p * 1000000" and "us + p * 1000000 \<le> 253402300799999999"
    and "- 62135510400000000 \<le> n" and "n \<le> 253402300799999999"
  shows "has_expired ts p (utc_clock n) = Inr (us + p * 1000000 < n)"
  using assms
  by (simp add: has_expired_def fromtimestamp_def datetime_now_def utc_local_datetime
      datetime_min_def datetime_max_def)

lemma count_expired_takeWhile:
  "count_expired n ds p clk = Inr k \<Longrightarrow> k = n + length (takeWhile (stale p clk) ds)"
proof (induction ds arbitrary: n)
  case Nil
  then show ?case by simp
next
  case (Cons a ds)
  show ?case
  proof (cases "has_expired (timestamp a) p clk")
    case (Inl e)
    with Cons.prems show ?thesis by simp
  next
    case (Inr b)
    show ?thesis
    proof (cases b)
      case True
      with Inr Cons.prems have "count_expired (n + 1) ds p clk = Inr k" by simp
      from Cons.IH [OF this] True Inr show ?thesis by (simp add: stale_def)
    next
      case False
      with Inr Cons.prems show ?thesis by (simp add: stale_def)
    qed
  qed
qed

lemma count_expired_stops:
  "count_expired n ds p clk = Inr k \<Longrightarrow> dropWhile (stale p clk) ds \<noteq> [] \<Longrightarrow>
   has_expired (timestamp (hd (dropWhile (stale p clk) ds))) p clk = Inr False"
  by (induction ds arbitrary: n) (auto simp add: stale_def split: sum.splits if_splits)


lemma count_expired_head_fresh:
  "has_expired (timestamp x) p clk = Inr False \<Longrightarrow> count_expired n (x # xs) p clk = Inr n"
  by simp

lemma drop_count_expired:
  "count_expired 0 ds p clk = Inr k \<Longrightarrow> drop k ds = dropWhile (stale p clk) ds"
  using count_expired_takeWhile [of 0 ds p clk k] by (simp add: dropWhile_eq_drop)

text \<open>What \<^verbatim>\<open>store_data\<close> leaves for the type of its event, and whether it raises.\<close>

lemma stored_store_data:
  "stored (snd (store_data s d clk)) (data_type d) =
     Some (let q = obj_append (prior s (data_type d)) d in
           case count_expired 0 (items q) (expire_time_period s) clk of
             Inl e \<Rightarrow> q
           | Inr n \<Rightarrow> if 0 < n then Deque (drop n (items q)) None else q)"
  by (cases "data s (data_type d)")
     (simp_all add: store_data_def clean_diagnosis_data_def alloc_def stored_def prior_def Let_def
        split: sum.splits)

lemma raises_store_data:
  "fst (store_data s d clk) =
     (case count_expired 0 (items (obj_append (prior s (data_type d)) d)) (expire_time_period s) clk of
        Inl e \<Rightarrow> Some e
      | Inr n \<Rightarrow> None)"
  by (cases "data s (data_type d)")
     (simp_all add: store_data_def clean_diagnosis_data_def alloc_def stored_def prior_def Let_def
        split: sum.splits)

lemma data_store_data_other:
  "ty \<noteq> data_type d \<Longrightarrow> data (snd (store_data s d clk)) ty = data s ty"
  by (cases "data s (data_type d)")
     (simp_all add: store_data_def clean_diagnosis_data_def alloc_def Let_def split: sum.splits)


lemma period_store_data [simp]:
  "expire_time_period (snd (store_data s d clk)) = expire_time_period s"
  by (cases "data s (data_type d)")
     (simp_all add: store_data_def clean_diagnosis_data_def alloc_def Let_def split: sum.splits)

lemma get_data_items_stored:
  "get_data_items s ty = (case stored s ty of None \<Rightarrow> [] | Some q \<Rightarrow> items q)"
  by (cases "data s ty") (simp_all add: get_data_items_def get_data_def alloc_def stored_def)

lemma refs_allocated_store_data:
  "refs_allocated s \<Longrightarrow> refs_allocated (snd (store_data s d clk))"
  unfolding refs_allocated_def
  by (cases "data s (data_type d)")
     (auto simp add: store_data_def clean_diagnosis_data_def alloc_def Let_def less_Suc_eq
        split: if_splits sum.splits)

lemma refs_allocated_get_data:
  "refs_allocated s \<Longrightarrow> refs_allocated (snd (get_data s ty))"
  unfolding refs_allocated_def
  by (cases "data s ty") (auto simp add: get_data_def alloc_def less_Suc_eq)

lemma reachable_refs_allocated: "reachable s \<Longrightarrow> refs_allocated s"
proof (induction rule: reachable.induct)
  case (reach_init p)
  show ?case by (simp add: refs_allocated_def DiagnosisDataManager_init_def)
next
  case (reach_store s d clk)
  then show ?case by (simp add: refs_allocated_store_data)
next
  case (reach_get s ty)
  then show ?case by (simp add: refs_allocated_get_data)
next
  case (reach_mutate s r ys)
  then show ?case by (simp add: refs_allocated_def caller_mutates_def)
qed


lemma stored_init: "stored (DiagnosisDataManager_init p) ty = None"
  by (simp add: stored_def DiagnosisDataManager_init_def)

lemma prior_init: "prior (DiagnosisDataManager_init p) ty = Deque [] (Some 100000)"
  by (simp add: prior_def stored_init)

lemma period_init [simp]: "expire_time_period (DiagnosisDataManager_init p) = p"
  by (simp add: DiagnosisDataManager_init_def)

lemma prior_stored: "stored s ty = Some q \<Longrightarrow> prior s ty = q"
  by (simp add: prior_def)

lemma get_data_items_prior: "get_data_items s ty = items (prior s ty)"
  by (simp add: get_data_items_stored prior_def split: option.splits)

lemma hang_signal_fields:
  "data_type (hang_signal t) = ''hang_signal''" "timestamp (hang_signal t) = t"
  by (simp_all add: hang_signal_def)

text \<open>A store whose scan finds the first item not expired keeps the deque it appended to.\<close>

lemma store_data_head_fresh:
  assumes "items (obj_append (prior s (data_type d)) d) = x # xs"
    and "has_expired (timestamp x) (expire_time_period s) clk = Inr False"
  shows "stored (snd (store_data s d clk)) (data_type d) = Some (obj_append (prior s (data_type d)) d)"
    and "fst (store_data s d clk) = None"
  using assms stored_store_data [of s d clk] raises_store_data [of s d clk]
  by (simp_all add: Let_def)

lemma round_half_even_numeral [simp]: "round_half_even (numeral k) = numeral k"
  by (simp add: round_half_even_def)

lemma round_half_even_zero [simp]: "round_half_even 0 = 0"
  by (simp add: round_half_even_def)

lemma store_data_unbounded_grows:
  assumes "stored s ty = Some (Deque (x # xs) None)"
    and "data_type d = ty"
    and "has_expired (timestamp x) (expire_time_period s) clk = Inr False"
  shows "stored (snd (store_data s d clk)) ty = Some (Deque (x # xs @ [d]) None)"
proof -
  have pr: "prior s ty = Deque (x # xs) None"
    using assms(1) by (rule prior_stored)
  have "items (obj_append (prior s (data_type d)) d) = x # (xs @ [d])"
    by (simp add: assms(2) pr)
  from store_data_head_fresh(1) [OF this assms(3)] show ?thesis
    by (simp add: assms(2) pr)
qed

lemma store_all_unbounded_grows:
  assumes "stored s ty = Some (Deque (x # xs) None)"
    and "list_all (\<lambda>(d, clk). data_type d = ty \<and>
            has_expired (timestamp x) (expire_time_period s) clk = Inr False) evs"
  shows "stored (store_all s evs) ty = Some (Deque (x # xs @ map fst evs) None)"
  using assms
proof (induction evs arbitrary: s xs)
  case Nil
  then show ?case by simp
next
  case (Cons ev evs)
  obtain d clk where ev: "ev = (d, clk)" by (cases ev)
  from Cons.prems ev
  have step: "stored (snd (store_data s d clk)) ty = Some (Deque (x # (xs @ [d])) None)"
    by (simp add: store_data_unbounded_grows)
  from Cons.prems ev have rest: "list_all (\<lambda>(d', clk'). data_type d' = ty \<and>
      has_expired (timestamp x) (expire_time_period (snd (store_data s d clk))) clk' = Inr False) evs"
    by simp
  from Cons.IH [OF step rest] ev show ?case by simp
qed

lemma stored_first_store:
  assumes "has_expired (timestamp d) p clk = Inr False"
  shows "stored (snd (store_data (DiagnosisDataManager_init p) d clk)) (data_type d) =
     Some (Deque [d] (Some 100000))"
    and "fst (store_data (DiagnosisDataManager_init p) d clk) = None"
proof -
  have "items (obj_append (prior (DiagnosisDataManager_init p) (data_type d)) d) = d # []"
    by (simp add: prior_init)
  moreover have "has_expired (timestamp d) (expire_time_period (DiagnosisDataManager_init p)) clk
      = Inr False"
    using assms by simp
  ultimately have "stored (snd (store_data (DiagnosisDataManager_init p) d clk)) (data_type d) =
      Some (obj_append (prior (DiagnosisDataManager_init p) (data_type d)) d)"
    and r: "fst (store_data (DiagnosisDataManager_init p) d clk) = None"
    by (rule store_data_head_fresh)+
  then show "stored (snd (store_data (DiagnosisDataManager_init p) d clk)) (data_type d) =
     Some (Deque [d] (Some 100000))"
    by (simp add: prior_init)
  show "fst (store_data (DiagnosisDataManager_init p) d clk) = None" by (rule r)
qed

lemma expired_0_600_at_0: "has_expired 0 600 (utc_clock 0) = Inr False"
  using has_expired_utc [of 0 0 600 0] by simp

lemma expired_0_600_at_601: "has_expired 0 600 (utc_clock 601000000) = Inr True"
  using has_expired_utc [of 0 0 600 601000000] by simp

lemma expired_601_600_later:
  assumes "0 \<le> k" and "k \<le> 600000000"
  shows "has_expired 601 600 (utc_clock (601000000 + k)) = Inr False"
  using has_expired_utc [of 601 601000000 600 "601000000 + k"] assms by simp

lemma stored_after_eviction:
  "stored (snd (store_data (snd (store_data (DiagnosisDataManager_init 600) (hang_signal 0)
      (utc_clock 0))) (hang_signal 601) (utc_clock 601000000))) ''hang_signal''
   = Some (Deque [hang_signal 601] None)"
proof -
  let ?s = "snd (store_data (DiagnosisDataManager_init 600) (hang_signal 0) (utc_clock 0))"
  have "stored ?s ''hang_signal'' = Some (Deque [hang_signal 0] (Some 100000))"
    using stored_first_store(1) [of "hang_signal 0" 600 "utc_clock 0"]
    by (simp add: hang_signal_fields expired_0_600_at_0)
  then have pr: "prior ?s ''hang_signal'' = Deque [hang_signal 0] (Some 100000)"
    by (rule prior_stored)
  have "count_expired 0 [hang_signal 0, hang_signal 601] 600 (utc_clock 601000000) = Inr 1"
    using expired_601_600_later [of 0]
    by (simp add: hang_signal_fields expired_0_600_at_601)
  then show ?thesis
    using stored_store_data [of ?s "hang_signal 601" "utc_clock 601000000"]
    by (simp add: hang_signal_fields pr)
qed



lemma store_data_returns:
  assumes "fst (store_data s d clk) = None"
  shows "get_data_items (snd (store_data s d clk)) (data_type d) =
     dropWhile (stale (expire_time_period s) clk) (items (obj_append (prior s (data_type d)) d))"
proof -
  let ?xs = "items (obj_append (prior s (data_type d)) d)"
  from assms obtain n where n: "count_expired 0 ?xs (expire_time_period s) clk = Inr n"
    using raises_store_data [of s d clk] by (auto split: sum.splits)
  have d: "drop n ?xs = dropWhile (stale (expire_time_period s) clk) ?xs"
    using n by (rule drop_count_expired)
  have "n = 0 \<Longrightarrow> dropWhile (stale (expire_time_period s) clk) ?xs = ?xs"
    using d by simp
  then show ?thesis
    using stored_store_data [of s d clk] n d
    by (auto simp add: get_data_items_stored Let_def)
qed




lemma store_data_head_kept:
  assumes "fst (store_data s d clk) = None"
    and "get_data_items (snd (store_data s d clk)) (data_type d) \<noteq> []"
  shows "has_expired (timestamp (hd (get_data_items (snd (store_data s d clk)) (data_type d))))
     (expire_time_period s) clk = Inr False"
proof -
  let ?xs = "items (obj_append (prior s (data_type d)) d)"
  from assms(1) obtain n where n: "count_expired 0 ?xs (expire_time_period s) clk = Inr n"
    using raises_store_data [of s d clk] by (auto split: sum.splits)
  from assms show ?thesis
    unfolding store_data_returns [OF assms(1)]
    using count_expired_stops [OF n] by simp
qed




lemma never_stored_reachable: "never_stored ty s \<Longrightarrow> reachable s"
  by (induction rule: never_stored.induct) (auto intro: reachable.intros)

lemma data_get_data [simp]: "data (snd (get_data s ty)) = data s"
  by (cases "data s ty") (simp_all add: get_data_def alloc_def)

lemma never_stored_no_entry: "never_stored ty s \<Longrightarrow> data s ty = None"
proof (induction rule: never_stored.induct)
  case (ns_init ty p)
  show ?case by (simp add: DiagnosisDataManager_init_def)
next
  case (ns_store ty s d clk)
  then show ?case by (simp add: data_store_data_other)
next
  case (ns_get ty s ty')
  then show ?case by simp
next
  case (ns_mutate ty s r ys)
  then show ?case by (simp add: caller_mutates_def)
qed

lemma get_data_frame:
  assumes "refs_allocated s" and "get_data s ty = (r, s')"
  shows "data s' = data s" and "expire_time_period s' = expire_time_period s"
    and "r \<notin> ran (data s')" and "stored s' ty' = stored s ty'"
    and "stored (caller_mutates r ys s') ty' = stored s ty'"
    and "items (heap s' r) = (case stored s ty of None \<Rightarrow> [] | Some q \<Rightarrow> items q)"
proof -
  from assms(2) have r: "r = next_addr s"
    by (cases "data s ty") (auto simp add: get_data_def alloc_def)
  from assms(2) show d: "data s' = data s"
    by (cases "data s ty") (auto simp add: get_data_def alloc_def)
  from assms(2) show "expire_time_period s' = expire_time_period s"
    by (cases "data s ty") (auto simp add: get_data_def alloc_def)
  from assms(1) have fresh: "\<And>a t. data s t = Some a \<Longrightarrow> a \<noteq> r"
    unfolding refs_allocated_def r by fastforce
  then show "r \<notin> ran (data s')"
    unfolding d ran_def by blast
  from assms(2) have h: "\<And>a. a \<noteq> r \<Longrightarrow> heap s' a = heap s a"
    by (cases "data s ty") (auto simp add: get_data_def alloc_def)
  show "stored s' ty' = stored s ty'"
    using fresh h by (cases "data s ty'") (simp_all add: stored_def d)
  show "stored (caller_mutates r ys s') ty' = stored s ty'"
    using fresh h by (cases "data s ty'") (simp_all add: stored_def d caller_mutates_def)
  from assms(2) show "items (heap s' r) = (case stored s ty of None \<Rightarrow> [] | Some q \<Rightarrow> items q)"
    by (cases "data s ty") (auto simp add: get_data_def alloc_def stored_def)
qed

lemma stored_after_first_store:
  assumes "has_expired t p clk = Inr False"
  shows "stored (snd (store_data (DiagnosisDataManager_init p) (hang_signal t) clk)) ''hang_signal''
     = Some (Deque [hang_signal t] (Some 100000))"
proof -
  have "has_expired (timestamp (hang_signal t)) p clk = Inr False"
    using assms by (simp add: hang_signal_fields)
  from stored_first_store(1) [OF this] show ?thesis
    by (simp add: hang_signal_fields)
qed

lemma expired_0_5_at_0: "has_expired 0 5 (utc_clock 0) = Inr False"
  using has_expired_utc [of 0 0 5 0] by simp

lemma expired_0_5_at_10: "has_expired 0 5 (utc_clock 10000000) = Inr True"
  using has_expired_utc [of 0 0 5 10000000] by simp

lemma expired_10_5_at_10: "has_expired 10 5 (utc_clock 10000000) = Inr False"
  using has_expired_utc [of 10 10000000 5 10000000] by simp

subsection \<open>The capacity ceiling\<close>

text \<open>
  As long as no call evicts, the deque created by \<^verbatim>\<open>store_data\<close> keeps its \<^verbatim>\<open>maxlen\<close>: a
  run of stores of one type on a new manager, none of whose events is found expired at
  any store of the run, leaves the newest 100000 events, in insertion order.
\<close>

lemma count_expired_zero:
  "xs \<noteq> [] \<Longrightarrow> has_expired (timestamp (hd xs)) p clk = Inr False \<Longrightarrow>
   count_expired 0 xs p clk = Inr 0"
  by (cases xs) simp_all

lemma store_data_bounded_step:
  assumes pr: "prior s ty = Deque xs (Some m)" and ty: "data_type d = ty"
    and m: "0 < m" and len: "length xs \<le> m"
    and fresh: "\<forall>e\<in>set (xs @ [d]). has_expired (timestamp e) (expire_time_period s) clk = Inr False"
  shows "prior (snd (store_data s d clk)) ty = Deque (drop (length xs + 1 - m) (xs @ [d])) (Some m)"
proof -
  let ?ys = "drop (length xs + 1 - m) (xs @ [d])"
  have app: "obj_append (prior s ty) d = Deque ?ys (Some m)"
  proof (cases "length xs = m")
    case True
    with m obtain x xs' where xs: "xs = x # xs'" by (cases xs) auto
    with True have "length xs + 1 - m = 1" by simp
    then show ?thesis using pr True xs by simp
  next
    case False
    with len have "length xs < m" by simp
    then show ?thesis using pr by simp
  qed
  have ne: "?ys \<noteq> []" using m len by simp
  have "hd ?ys \<in> set ?ys" using ne by (rule hd_in_set)
  then have "hd ?ys \<in> set (xs @ [d])" by (meson in_set_dropD)
  with fresh have "has_expired (timestamp (hd ?ys)) (expire_time_period s) clk = Inr False" by blast
  with ne have z: "count_expired 0 ?ys (expire_time_period s) clk = Inr 0"
    by (rule count_expired_zero)
  have "stored (snd (store_data s d clk)) ty = Some (Deque ?ys (Some m))"
    using stored_store_data [of s d clk] ty app z by (simp add: Let_def)
  then show ?thesis by (rule prior_stored)
qed

lemma drop_append_le: "n \<le> length zs \<Longrightarrow> drop n zs @ rest = drop n (zs @ rest)"
  by simp

lemma drop_window:
  assumes "length xs \<le> m"
  shows "drop (length (drop (length xs + 1 - m) (xs @ [d]) @ rest) - m)
           (drop (length xs + 1 - m) (xs @ [d]) @ rest) =
         drop (length (xs @ d # rest) - m) (xs @ d # rest)"
proof -
  let ?zs = "xs @ [d]"
  let ?k = "length xs + 1 - m"
  have k: "?k \<le> length ?zs" by simp
  then have e: "drop ?k ?zs @ rest = drop ?k (?zs @ rest)" by (rule drop_append_le)
  have "length (drop ?k ?zs @ rest) - m + ?k = length (xs @ d # rest) - m"
    using assms by (cases "length xs = m") auto
  then have "drop (length (drop ?k ?zs @ rest) - m) (drop ?k (?zs @ rest)) =
      drop (length (xs @ d # rest) - m) (?zs @ rest)"
    by (simp only: drop_drop)
  then show ?thesis unfolding e by simp
qed

lemma store_all_bounded:
  assumes "prior s ty = Deque xs (Some m)" and "0 < m" and "length xs \<le> m"
    and "list_all (\<lambda>(d, clk). data_type d = ty \<and>
           (\<forall>e\<in>set (xs @ map fst evs).
              has_expired (timestamp e) (expire_time_period s) clk = Inr False)) evs"
  shows "prior (store_all s evs) ty =
     Deque (drop (length (xs @ map fst evs) - m) (xs @ map fst evs)) (Some m)"
  using assms
proof (induction evs arbitrary: s xs)
  case Nil
  then show ?case by simp
next
  case (Cons ev evs)
  obtain d clk where ev: "ev = (d, clk)" by (cases ev)
  let ?k = "length xs + 1 - m"
  let ?ys = "drop ?k (xs @ [d])"
  from Cons.prems ev have ty: "data_type d = ty"
    and fresh: "\<forall>e\<in>set (xs @ [d]). has_expired (timestamp e) (expire_time_period s) clk = Inr False"
    by auto
  have step: "prior (snd (store_data s d clk)) ty = Deque ?ys (Some m)"
    using Cons.prems(1) ty Cons.prems(2,3) fresh by (rule store_data_bounded_step)
  have len: "length ?ys \<le> m" using Cons.prems(3) by simp
  have sub: "set (?ys @ map fst evs) \<subseteq> set (xs @ map fst (ev # evs))"
    using ev set_drop_subset [of ?k "xs @ [d]"] by auto
  have rest: "list_all (\<lambda>(d', clk'). data_type d' = ty \<and>
      (\<forall>e\<in>set (?ys @ map fst evs).
         has_expired (timestamp e) (expire_time_period (snd (store_data s d clk))) clk'
           = Inr False)) evs"
    unfolding list_all_iff period_store_data
  proof (intro ballI)
    fix x assume x: "x \<in> set evs"
    obtain d' clk' where dn: "x = (d', clk')" by (cases x)
    let ?Q = "\<lambda>(d, clk). data_type d = ty \<and>
         (\<forall>e\<in>set (xs @ map fst (ev # evs)).
            has_expired (timestamp e) (expire_time_period s) clk = Inr False)"
    from Cons.prems(4) have "\<forall>x\<in>set (ev # evs). ?Q x"
      unfolding list_all_iff .
    moreover from x have "x \<in> set (ev # evs)" by simp
    ultimately have "?Q x" by (rule bspec)
    then have "data_type d' = ty"
      and "\<forall>e\<in>set (xs @ map fst (ev # evs)).
          has_expired (timestamp e) (expire_time_period s) clk' = Inr False"
      unfolding dn split_conv by blast+
    with sub have "data_type d' = ty \<and>
        (\<forall>e\<in>set (?ys @ map fst evs).
           has_expired (timestamp e) (expire_time_period s) clk' = Inr False)"
      by blast
    then show "case x of (d', clk') \<Rightarrow> data_type d' = ty \<and>
        (\<forall>e\<in>set (?ys @ map fst evs).
           has_expired (timestamp e) (expire_time_period s) clk' = Inr False)"
      unfolding dn split_conv .
  qed
  have "prior (store_all (snd (store_data s d clk)) evs) ty =
      Deque (drop (length (?ys @ map fst evs) - m) (?ys @ map fst evs)) (Some m)"
    using step Cons.prems(2) len rest by (rule Cons.IH)
  moreover have "drop (length (?ys @ map fst evs) - m) (?ys @ map fst evs) =
      drop (length (xs @ map fst (ev # evs)) - m) (xs @ map fst (ev # evs))"
    using drop_window [OF Cons.prems(3), of d "map fst evs"] ev by simp
  ultimately show ?case using ev by simp
qed

lemma new_manager_keeps_newest:
  assumes "list_all (\<lambda>(d, clk). data_type d = ty \<and>
           (\<forall>e\<in>set (map fst evs). has_expired (timestamp e) p clk = Inr False)) evs"
  shows "get_data_items (store_all (DiagnosisDataManager_init p) evs) ty =
     drop (length evs - 100000) (map fst evs)"
proof -
  let ?s = "DiagnosisDataManager_init p"
  have pr: "prior ?s ty = Deque [] (Some 100000)" by (rule prior_init)
  have per: "expire_time_period ?s = p" by simp
  have pos: "(0::nat) < 100000" by simp
  have len: "length ([]::diagnosis_data list) \<le> 100000" by simp
  have fresh: "list_all (\<lambda>(d, clk). data_type d = ty \<and>
           (\<forall>e\<in>set ([] @ map fst evs).
              has_expired (timestamp e) (expire_time_period ?s) clk = Inr False)) evs"
    using assms unfolding per by simp
  have "prior (store_all ?s evs) ty =
      Deque (drop (length ([] @ map fst evs) - 100000) ([] @ map fst evs)) (Some 100000)"
    using pr pos len fresh by (rule store_all_bounded)
  then show ?thesis by (simp add: get_data_items_prior)
qed

text \<open>
  Claim C1: the sequence kept for a type never exceeds 100000 entries, also after a
  \<^verbatim>\<open>store_data\<close> call has evicted a stale prefix. The deque created for a new type is
  bounded, but the deque that \<^verbatim>\<open>_clean_diagnosis_data\<close> rebuilds after an eviction has no
  \<^verbatim>\<open>maxlen\<close>: from then on every append grows it. On the run \<open>overflow_run\<close>, which
  stores 100001 events after one eviction, \<^verbatim>\<open>get_data\<close> returns 100001 entries.
\<close>

theorem capacity_lost_after_eviction:
  "length (get_data_items (store_all (DiagnosisDataManager_init 600) overflow_run) ''hang_signal'')
     = 100001"
proof -
  let ?s = "snd (store_data (snd (store_data (DiagnosisDataManager_init 600) (hang_signal 0)
      (utc_clock 0))) (hang_signal 601) (utc_clock 601000000))"
  let ?evs = "map (\<lambda>i. (hang_signal (601 + real i / 1000), utc_clock (601000000 + 1000 * int i)))
      [1..<100001]"
  have per: "expire_time_period ?s = 600" by simp
  have fresh: "list_all (\<lambda>(d, clk). data_type d = ''hang_signal'' \<and>
      has_expired (timestamp (hang_signal 601)) (expire_time_period ?s) clk = Inr False) ?evs"
    unfolding per list_all_iff
    by (auto simp add: hang_signal_fields expired_601_600_later)
  have "stored (store_all ?s ?evs) ''hang_signal'' =
      Some (Deque (hang_signal 601 # [] @ map fst ?evs) None)"
    by (rule store_all_unbounded_grows [OF stored_after_eviction fresh])
  then show ?thesis
    by (simp add: overflow_run_def get_data_items_stored)
qed

subsection \<open>What a query returns\<close>

text \<open>
  Claim C2 says that \<^verbatim>\<open>get_data\<close> leaves out every event that is stale at the time of
  the query. It does not: one event with timestamp 0 is stored at time 0 under a window
  of 5 seconds; at time 10 \<^verbatim>\<open>has_expired\<close> finds the event expired, and \<^verbatim>\<open>get_data\<close>,
  which reads no clock, still returns it.
\<close>

theorem get_data_returns_stale_event:
  "get_data_items (snd (store_data (DiagnosisDataManager_init 5) (hang_signal 0) (utc_clock 0)))
      ''hang_signal'' = [hang_signal 0]
   \<and> has_expired (timestamp (hang_signal 0)) 5 (utc_clock 10000000) = Inr True"
  using stored_after_first_store [OF expired_0_5_at_0]
  by (simp add: get_data_items_stored hang_signal_fields expired_0_5_at_10)

text \<open>
  Claim C2, amended: in every reachable state \<^verbatim>\<open>get_data\<close> returns exactly the items the
  type's deque holds (the empty list when the type has no entry), whatever the time of
  the query, and leaves the dictionary, the window and every stored deque as they were:
  it evicts nothing. Right after a \<^verbatim>\<open>store_data\<close> call that returned, the first event
  returned for the stored type, if there is one, is one the scan of that call found not
  expired.
\<close>

theorem get_data_reads_no_clock:
  assumes "reachable s"
  shows "(case get_data s ty of (r, s') \<Rightarrow>
            items (heap s' r) = (case stored s ty of None \<Rightarrow> [] | Some q \<Rightarrow> items q)
          \<and> data s' = data s
          \<and> expire_time_period s' = expire_time_period s
          \<and> (\<forall>ty'. stored s' ty' = stored s ty'))
       \<and> get_data_items s ty = (case stored s ty of None \<Rightarrow> [] | Some q \<Rightarrow> items q)
       \<and> (fst (store_data s d clk) = None
            \<and> get_data_items (snd (store_data s d clk)) (data_type d) \<noteq> [] \<longrightarrow>
          has_expired (timestamp (hd (get_data_items (snd (store_data s d clk)) (data_type d))))
            (expire_time_period s) clk = Inr False)"
proof (intro conjI)
  obtain r s' where g: "get_data s ty = (r, s')" by (cases "get_data s ty")
  have ra: "refs_allocated s" using assms by (rule reachable_refs_allocated)
  show "case get_data s ty of (r, s') \<Rightarrow>
            items (heap s' r) = (case stored s ty of None \<Rightarrow> [] | Some q \<Rightarrow> items q)
          \<and> data s' = data s
          \<and> expire_time_period s' = expire_time_period s
          \<and> (\<forall>ty'. stored s' ty' = stored s ty')"
    using get_data_frame [OF ra g] by (simp add: g)
  show "get_data_items s ty = (case stored s ty of None \<Rightarrow> [] | Some q \<Rightarrow> items q)"
    by (rule get_data_items_stored)
  show "fst (store_data s d clk) = None
            \<and> get_data_items (snd (store_data s d clk)) (data_type d) \<noteq> [] \<longrightarrow>
          has_expired (timestamp (hd (get_data_items (snd (store_data s d clk)) (data_type d))))
            (expire_time_period s) clk = Inr False"
    using store_data_head_kept by blast
qed

theorem get_data_reads_no_clock_witness:
  "(case get_data (snd (store_data (DiagnosisDataManager_init 5) (hang_signal 0) (utc_clock 0)))
          ''hang_signal'' of (r, s') \<Rightarrow>
      items (heap s' r) = [hang_signal 0]
      \<and> stored s' ''hang_signal'' = Some (Deque [hang_signal 0] (Some 100000)))
   \<and> fst (store_data (DiagnosisDataManager_init 5) (hang_signal 0) (utc_clock 0)) = None
   \<and> get_data_items (snd (store_data (DiagnosisDataManager_init 5) (hang_signal 0) (utc_clock 0)))
        ''hang_signal'' = [hang_signal 0]
   \<and> has_expired (timestamp (hang_signal 0)) 5 (utc_clock 0) = Inr False"
proof -
  let ?new = "DiagnosisDataManager_init 5"
  let ?s = "snd (store_data ?new (hang_signal 0) (utc_clock 0))"
  have fresh: "has_expired (timestamp (hang_signal 0)) 5 (utc_clock 0) = Inr False"
    by (simp add: hang_signal_fields expired_0_5_at_0)
  have ret: "fst (store_data ?new (hang_signal 0) (utc_clock 0)) = None"
    by (rule stored_first_store(2) [OF fresh])
  have st: "stored ?s ''hang_signal'' = Some (Deque [hang_signal 0] (Some 100000))"
    by (rule stored_after_first_store) (rule expired_0_5_at_0)
  have its: "get_data_items ?s (data_type (hang_signal 0)) = [hang_signal 0]"
    using st by (simp add: get_data_items_stored hang_signal_fields)
  have re: "reachable ?s"
    by (rule reach_store [OF reach_init])
  have "has_expired (timestamp (hd (get_data_items ?s (data_type (hang_signal 0)))))
      (expire_time_period ?new) (utc_clock 0) = Inr False"
    using get_data_reads_no_clock [OF reach_init [of 5], where d = "hang_signal 0"
        and clk = "utc_clock 0"] ret its by simp
  then have kept: "has_expired (timestamp (hang_signal 0)) 5 (utc_clock 0) = Inr False"
    by (simp add: its)
  show ?thesis
    using get_data_reads_no_clock [OF re, of "''hang_signal''"] st ret its kept
    by (auto simp add: hang_signal_fields split: prod.splits)
qed

subsection \<open>Appending and evicting\<close>




subsection \<open>Unknown types\<close>

text \<open>
  Claim C8: for a type that was never stored to, \<^verbatim>\<open>get_data\<close> returns an empty list
  (the function has no error result: the lookup is guarded), creates no entry for the
  type and leaves the dictionary, the window and every stored deque as they were.
\<close>

theorem get_data_unknown_type:
  assumes "never_stored ty s"
  shows "(case get_data s ty of (r, s') \<Rightarrow>
           items (heap s' r) = []
         \<and> data s' = data s \<and> data s' ty = None
         \<and> expire_time_period s' = expire_time_period s
         \<and> (\<forall>ty'. stored s' ty' = stored s ty'))"
proof -
  obtain r s' where g: "get_data s ty = (r, s')" by (cases "get_data s ty")
  have ra: "refs_allocated s"
    using assms by (simp add: never_stored_reachable reachable_refs_allocated)
  have none: "data s ty = None" using assms by (rule never_stored_no_entry)
  then have st: "stored s ty = None" by (simp add: stored_def)
  show ?thesis
    using get_data_frame [OF ra g] none st by (simp add: g)
qed

theorem get_data_unknown_type_witness:
  "(case get_data (snd (store_data (DiagnosisDataManager_init 600) (hang_signal 0) (utc_clock 0)))
          ''nonexistent_type'' of (r, s') \<Rightarrow>
      items (heap s' r) = []
      \<and> data s' ''nonexistent_type'' = None
      \<and> stored s' ''hang_signal'' = Some (Deque [hang_signal 0] (Some 100000)))"
proof -
  let ?s = "snd (store_data (DiagnosisDataManager_init 600) (hang_signal 0) (utc_clock 0))"
  have ns: "never_stored ''nonexistent_type'' ?s"
    by (rule ns_store [OF ns_init]) (simp add: hang_signal_fields)
  have st: "stored ?s ''hang_signal'' = Some (Deque [hang_signal 0] (Some 100000))"
    by (rule stored_after_first_store) (rule expired_0_600_at_0)
  show ?thesis
    using get_data_unknown_type [OF ns] st by (auto split: prod.splits)
qed

subsection \<open>The returned list is a copy\<close>



section \<open>Properties of the diagnostician, the loop and the manager\<close>

subsection \<open>Root-cause diagnosis\<close>

text \<open>
  Claim C3: \<^verbatim>\<open>diagnose_failure\<close> returns a sequence of inferences, possibly empty, for
  every problem, so that the loop can iterate over the result. The method is annotated
  \<^verbatim>\<open>-> List[Inference]\<close> and its caller iterates over what it returns, but its body is
  \<^verbatim>\<open>pass\<close>: it returns \<^verbatim>\<open>None\<close> for every problem, and an iteration of the loop that
  observes a problem raises \<^verbatim>\<open>TypeError\<close> when it iterates over that result.
\<close>

theorem diagnose_failure_returns_None:
  "diagnose_failure d problem = None
   \<and> loop_iteration d True sz (Inr [problem]) =
       ([Log_data_size sz, Chain_infer (training_problems d) (get_observing_operators d),
         Log_problem problem], Raise TypeError)"
  by (simp add: diagnose_failure_def loop_iteration_def observe_training_def)

subsection \<open>How the loop ends\<close>

lemma loop_iteration_stopped:
  "loop_iteration d False sz outcome = ([Log_info ''Stop to diagnose failures for observing.''], Break)"
  by (simp add: loop_iteration_def)

lemma loop_iteration_not_Break: "snd (loop_iteration d True sz outcome) \<noteq> Break"
  by (simp add: loop_iteration_def observe_training_def split: sum.splits prod.splits option.splits)

lemma loop_iteration_observe_raises:
  "loop_iteration d True sz (Inl e) =
     ([Log_data_size sz, Chain_infer (training_problems d) (get_observing_operators d)], Raise e)"
  by (simp add: loop_iteration_def observe_training_def)

lemma loop_iteration_no_problem:
  "loop_iteration d True sz (Inr []) =
     ([Log_data_size sz, Chain_infer (training_problems d) (get_observing_operators d), Sleep], Next)"
  by (simp add: loop_iteration_def observe_training_def)

lemma loop_passes: "passes d rd \<Longrightarrow> snd (diagnose_failures_loop d (rd # rest)) = snd (diagnose_failures_loop d rest)"
  by (cases rd) (auto simp add: passes_def split: prod.splits iteration_result.splits)

lemma loop_flag_cleared: "snd (diagnose_failures_loop d ((False, sz, outcome) # rest)) = Stopped"
  by (simp add: loop_iteration_stopped)

lemma loop_raises:
  "snd (loop_iteration d True sz outcome) = Raise e \<Longrightarrow>
   snd (diagnose_failures_loop d ((True, sz, outcome) # rest)) = Died e"
  by (auto split: prod.splits iteration_result.splits)

lemma loop_readings_out: "snd (diagnose_failures_loop d []) = Still_looping"
  by simp

declare diagnose_failures_loop.simps [simp del]

lemma not_passes_cases:
  assumes "\<not> passes d (started, sz, outcome)"
  shows "\<not> started \<or> (\<exists>e. started \<and> snd (loop_iteration d True sz outcome) = Raise e)"
proof (cases started)
  case True
  with assms loop_iteration_not_Break [of d sz outcome] show ?thesis
    by (cases "snd (loop_iteration d True sz outcome)") (auto simp add: passes_def)
qed simp

lemma loop_first_failure:
  assumes "\<not> passes d rd"
  shows "(\<exists>sz outcome. rd = (False, sz, outcome) \<and> snd (diagnose_failures_loop d (rd # rest)) = Stopped)
    \<or> (\<exists>sz outcome e. rd = (True, sz, outcome) \<and> snd (loop_iteration d True sz outcome) = Raise e
          \<and> snd (diagnose_failures_loop d (rd # rest)) = Died e)"
proof -
  obtain started sz outcome where rd: "rd = (started, sz, outcome)" by (cases rd)
  from assms rd not_passes_cases [of d started sz outcome]
  consider "\<not> started" | e where "started" "snd (loop_iteration d True sz outcome) = Raise e"
    by auto
  then show ?thesis
  proof cases
    case 1
    with rd show ?thesis by (simp add: loop_flag_cleared)
  next
    case 2
    with rd loop_raises [of d sz outcome e rest] show ?thesis by simp
  qed
qed

lemma snd_diagnose_failures: "snd (diagnose_failures d readings) = snd (diagnose_failures_loop d readings)"
  by (simp add: diagnose_failures_def split: prod.splits)

lemma loop_after_passes:
  "list_all (passes d) pre \<Longrightarrow>
   snd (diagnose_failures_loop d (pre @ rest)) = snd (diagnose_failures_loop d rest)"
  by (induction pre) (simp_all add: loop_passes)

lemma loop_still_looping:
  "snd (diagnose_failures_loop d readings) = Still_looping \<longleftrightarrow> list_all (passes d) readings"
proof (induction readings)
  case Nil
  show ?case by (simp add: loop_readings_out)
next
  case (Cons rd rest)
  show ?case
  proof (cases "passes d rd")
    case True
    with Cons show ?thesis by (simp add: loop_passes)
  next
    case False
    with loop_first_failure [of d rd rest]
    have "snd (diagnose_failures_loop d (rd # rest)) \<noteq> Still_looping" by auto
    with False show ?thesis by simp
  qed
qed

lemma split_at_first_failure:
  assumes "\<not> list_all (passes d) readings"
  obtains pre rd post where "readings = pre @ rd # post" "list_all (passes d) pre" "\<not> passes d rd"
proof -
  let ?pre = "takeWhile (passes d) readings"
  let ?rest = "dropWhile (passes d) readings"
  from assms have ne: "?rest \<noteq> []" by (simp add: list_all_iff)
  then obtain rd post where r: "?rest = rd # post" by (cases ?rest) auto
  have "\<not> passes d rd" using hd_dropWhile [OF ne] r by simp
  moreover have "list_all (passes d) ?pre" by (simp add: list_all_iff) (meson set_takeWhileD)
  moreover have "readings = ?pre @ rd # post" using r by (metis takeWhile_dropWhile_id)
  ultimately show ?thesis using that by blast
qed

text \<open>
  Claim C4 says that an exception raised inside an iteration is caught in the loop body
  and the loop goes on to its next sleep. The body has no handler: when
  \<^verbatim>\<open>observe_training\<close> raises in the first iteration, the loop ends with that exception,
  without sleeping and without a second iteration, although the flag is still set.
\<close>

theorem loop_killed_by_exception:
  "diagnose_failures Diagnostician_init
     [(True, 48, Inl (OtherException ''operator failed'')), (True, 48, Inr []), (False, 48, Inr [])]
   = ([Log_info ''Start to diagnose failures for observing.'', Log_data_size 48,
       Chain_infer [] [CheckTrainingHangOperator]],
      Died (OtherException ''operator failed''))"
  by (simp add: diagnose_failures_def diagnose_failures_loop.simps loop_iteration_observe_raises
      Diagnostician_init_def get_observing_operators_def)

text \<open>
  Claim C4, amended: the loop ends normally exactly when it reads the flag as cleared,
  all earlier iterations having passed; it ends with an exception \<open>e\<close> exactly when an
  iteration raises \<open>e\<close>, all earlier iterations having passed; otherwise it is still
  looping. An exception raised by \<^verbatim>\<open>observe_training\<close> is not caught: it ends the
  iteration and the loop before the sleep. An iteration that observes no problem ends
  with the sleep and the loop goes on.
\<close>

theorem loop_ends_by_flag_or_exception:
  "(snd (diagnose_failures d readings) = Stopped \<longleftrightarrow>
      (\<exists>pre sz outcome post. readings = pre @ (False, sz, outcome) # post \<and> list_all (passes d) pre))
   \<and> (snd (diagnose_failures d readings) = Died e \<longleftrightarrow>
      (\<exists>pre sz outcome post. readings = pre @ (True, sz, outcome) # post \<and> list_all (passes d) pre
         \<and> snd (loop_iteration d True sz outcome) = Raise e))
   \<and> (snd (diagnose_failures d readings) = Still_looping \<longleftrightarrow> list_all (passes d) readings)
   \<and> loop_iteration d True sz' (Inl e') =
       ([Log_data_size sz', Chain_infer (training_problems d) (get_observing_operators d)], Raise e')
   \<and> loop_iteration d True sz' (Inr []) =
       ([Log_data_size sz', Chain_infer (training_problems d) (get_observing_operators d), Sleep], Next)"
proof (intro conjI)
  show "snd (diagnose_failures d readings) = Stopped \<longleftrightarrow>
      (\<exists>pre sz outcome post. readings = pre @ (False, sz, outcome) # post \<and> list_all (passes d) pre)"
    (is "?L \<longleftrightarrow> ?R")
  proof
    assume l: ?L
    then have "\<not> list_all (passes d) readings"
      using loop_still_looping [of d readings] by (simp add: snd_diagnose_failures)
    then obtain pre rd post where sp: "readings = pre @ rd # post" "list_all (passes d) pre"
      "\<not> passes d rd" by (rule split_at_first_failure)
    have res: "snd (diagnose_failures_loop d (rd # post)) = Stopped"
      using l sp by (simp add: snd_diagnose_failures loop_after_passes)
    with loop_first_failure [OF sp(3), of post]
    obtain sz outcome where "rd = (False, sz, outcome)" by auto
    with sp show ?R by blast
  next
    assume ?R
    then obtain pre sz outcome post where
      "readings = pre @ (False, sz, outcome) # post" "list_all (passes d) pre" by blast
    then show ?L
      by (simp add: snd_diagnose_failures loop_after_passes loop_flag_cleared)
  qed
  show "snd (diagnose_failures d readings) = Died e \<longleftrightarrow>
      (\<exists>pre sz outcome post. readings = pre @ (True, sz, outcome) # post \<and> list_all (passes d) pre
         \<and> snd (loop_iteration d True sz outcome) = Raise e)"
    (is "?L \<longleftrightarrow> ?R")
  proof
    assume l: ?L
    then have "\<not> list_all (passes d) readings"
      using loop_still_looping [of d readings] by (simp add: snd_diagnose_failures)
    then obtain pre rd post where sp: "readings = pre @ rd # post" "list_all (passes d) pre"
      "\<not> passes d rd" by (rule split_at_first_failure)
    have res: "snd (diagnose_failures_loop d (rd # post)) = Died e"
      using l sp by (simp add: snd_diagnose_failures loop_after_passes)
    with loop_first_failure [OF sp(3), of post]
    obtain sz outcome where "rd = (True, sz, outcome)"
      "snd (loop_iteration d True sz outcome) = Raise e" by auto
    with sp show ?R by blast
  next
    assume ?R
    then obtain pre sz outcome post where
      "readings = pre @ (True, sz, outcome) # post" "list_all (passes d) pre"
      "snd (loop_iteration d True sz outcome) = Raise e" by blast
    then show ?L
      by (simp add: snd_diagnose_failures loop_after_passes loop_raises)
  qed
  show "snd (diagnose_failures d readings) = Still_looping \<longleftrightarrow> list_all (passes d) readings"
    by (simp add: snd_diagnose_failures loop_still_looping)
  show "loop_iteration d True sz' (Inl e') =
       ([Log_data_size sz', Chain_infer (training_problems d) (get_observing_operators d)], Raise e')"
    by (rule loop_iteration_observe_raises)
  show "loop_iteration d True sz' (Inr []) =
       ([Log_data_size sz', Chain_infer (training_problems d) (get_observing_operators d), Sleep], Next)"
    by (rule loop_iteration_no_problem)
qed


theorem loop_ends_by_flag_or_exception_witness:
  "snd (diagnose_failures Diagnostician_init [(True, 48, Inr []), (False, 48, Inr [])]) = Stopped
   \<and> passes Diagnostician_init (True, 48, Inr [])"
proof -
  have p: "passes Diagnostician_init (True, 48, Inr [])"
    by (simp add: passes_def loop_iteration_no_problem)
  have "\<exists>pre sz outcome post.
      [(True, 48, Inr []), (False, 48, Inr [])] = pre @ (False, sz, outcome) # post
      \<and> list_all (passes Diagnostician_init) pre"
    using p by (intro exI [of _ "[(True, 48, Inr [])]"] exI [of _ 48] exI [of _ "Inr []"] exI [of _ "[]"]) simp
  with loop_ends_by_flag_or_exception
    [of Diagnostician_init "[(True, 48, Inr []), (False, 48, Inr [])]"]
  show ?thesis using p by blast
qed

subsection \<open>Starting and stopping\<close>







text \<open>
  Claim C6 says that after a failed spawn the observing flag does not remain set. The
  flag is set before the thread is created and the handler only logs: after a failed
  spawn the flag is set, with no thread running.
\<close>

theorem flag_set_after_failed_spawn:
  "is_observing_started (start_observing DiagnosisManager_init (Spawn_failed ''cannot start new thread''))
   \<and> threads (start_observing DiagnosisManager_init (Spawn_failed ''cannot start new thread'')) = []"
  by (simp add: start_observing_def DiagnosisManager_init_def Let_def)

text \<open>
  Claim C6, amended: when \<^verbatim>\<open>start_observing\<close> fails to spawn the thread, it logs the
  failure with the exception's text, no loop thread exists that did not exist before,
  and nothing is retried (the only effects are the two log lines); the problem seeds
  are registered and the observing flag, set before the attempt, stays set.
\<close>

theorem failed_spawn_logged_no_retry:
  "(let m' = start_observing m (Spawn_failed e)
    in threads m' = threads m
     \<and> effects m' = effects m @
         [Log_info ''Start Diagnosis Manager to observing training...'',
          Log_error (''Failed to start the diagnosis manager thread. Error: '' @ e)]
     \<and> is_observing_started m'
     \<and> data_manager m' = data_manager m
     \<and> diagnostician m' = register_problems (diagnostician m) [training_hang])"
  by (simp add: start_observing_def Let_def)

subsection \<open>The pre-check\<close>

text \<open>
  Claim C10 says that \<^verbatim>\<open>pre_check\<close> evaluates the pre-check inference chain. It does
  not: its only effect is one log line, where \<^verbatim>\<open>check_training\<close> would evaluate a chain.
\<close>

theorem pre_check_runs_no_chain:
  "effects (pre_check DiagnosisManager_init) =
     [Log_info ''Start Diagnosis Manager to pre-check training...'']
   \<and> snd (check_training (diagnostician (pre_check DiagnosisManager_init)) (Inr []))
       = [Chain_infer [] []]"
  by (simp add: pre_check_def DiagnosisManager_init_def check_training_def register_pre_check_def
      Diagnostician_init_def get_pre_check_operators_def Let_def)

text \<open>
  Claim C10, amended: \<^verbatim>\<open>pre_check\<close> runs synchronously and only replaces the registered
  pre-check seeds by the empty list, logging one line; it evaluates no inference chain,
  starts no thread and neither reads nor changes the observing flag, the problem seeds
  or the data manager, so it behaves alike in the idle and the observing state. A
  \<^verbatim>\<open>check_training\<close> call made afterwards evaluates the chain over these empty seeds
  with the empty pre-check operator catalogue.
\<close>

theorem pre_check_registers_only:
  "pre_checks (diagnostician (pre_check m)) = []
   \<and> training_problems (diagnostician (pre_check m)) = training_problems (diagnostician m)
   \<and> effects (pre_check m) =
       effects m @ [Log_info ''Start Diagnosis Manager to pre-check training...'']
   \<and> is_observing_started (pre_check m) = is_observing_started m
   \<and> threads (pre_check m) = threads m
   \<and> data_manager (pre_check m) = data_manager m
   \<and> check_training (diagnostician (pre_check m)) outcome = (outcome, [Chain_infer [] []])"
  by (simp add: pre_check_def check_training_def register_pre_check_def
      get_pre_check_operators_def Let_def)

end
